theory Spec2Isabelle
  imports Complex_Main "HOL-Library.Char_ord" "HOL-Library.List_Lexorder" "HOL-Library.Multiset"
begin

section \<open>Values\<close>

text \<open>
  The program under study is \<^verbatim>\<open>compute_results\<close> of \<^verbatim>\<open>src/app.py\<close>: it joins a
  formula table with an optional stock table (pandas \<^verbatim>\<open>merge\<close>), coerces two columns to
  numbers, derives two columns, computes the largest order that stock allows and lists
  the shortages.

  A float64 value is a finite number, one of the two infinities, or NaN. Finite values
  are kept as rationals; the rounding that every arithmetic operation of the machine
  applies to its exact result is a parameter \<open>rnd\<close> of the model, so that what is
  proved holds for every rounding function, the one of IEEE 754 among them. The sign
  of zero is not modelled: no comparison of the program can see it.
\<close>

datatype fl = Fin rat | PInf | NInf | NaN

type_synonym rounding = "rat \<Rightarrow> fl"

text \<open>Comparison \<^verbatim>\<open><\<close> of two floats: false as soon as one side is NaN.\<close>

fun fl_less :: "fl \<Rightarrow> fl \<Rightarrow> bool" where
  "fl_less NaN _ = False"
| "fl_less _ NaN = False"
| "fl_less (Fin a) (Fin b) = (a < b)"
| "fl_less (Fin _) PInf = True"
| "fl_less NInf (Fin _) = True"
| "fl_less NInf PInf = True"
| "fl_less _ _ = False"

text \<open>Multiplication: infinity times zero is NaN, otherwise the sign rule.\<close>

fun fl_sign_inf :: "bool \<Rightarrow> fl" where
  "fl_sign_inf positive = (if positive then PInf else NInf)"

fun fl_mul :: "rounding \<Rightarrow> fl \<Rightarrow> fl \<Rightarrow> fl" where
  "fl_mul rnd NaN _ = NaN"
| "fl_mul rnd _ NaN = NaN"
| "fl_mul rnd (Fin a) (Fin b) = rnd (a * b)"
| "fl_mul rnd (Fin a) PInf = (if a = 0 then NaN else fl_sign_inf (0 < a))"
| "fl_mul rnd (Fin a) NInf = (if a = 0 then NaN else fl_sign_inf (a < 0))"
| "fl_mul rnd PInf (Fin b) = (if b = 0 then NaN else fl_sign_inf (0 < b))"
| "fl_mul rnd NInf (Fin b) = (if b = 0 then NaN else fl_sign_inf (b < 0))"
| "fl_mul rnd PInf PInf = PInf"
| "fl_mul rnd NInf NInf = PInf"
| "fl_mul rnd PInf NInf = NInf"
| "fl_mul rnd NInf PInf = NInf"

text \<open>Subtraction: the difference of two equal infinities is NaN.\<close>

fun fl_sub :: "rounding \<Rightarrow> fl \<Rightarrow> fl \<Rightarrow> fl" where
  "fl_sub rnd NaN _ = NaN"
| "fl_sub rnd _ NaN = NaN"
| "fl_sub rnd (Fin a) (Fin b) = rnd (a - b)"
| "fl_sub rnd (Fin _) PInf = NInf"
| "fl_sub rnd (Fin _) NInf = PInf"
| "fl_sub rnd PInf (Fin _) = PInf"
| "fl_sub rnd NInf (Fin _) = NInf"
| "fl_sub rnd PInf PInf = NaN"
| "fl_sub rnd NInf NInf = NaN"
| "fl_sub rnd PInf NInf = PInf"
| "fl_sub rnd NInf PInf = NInf"

text \<open>
  Division. The program divides at one place only (line 66), under the guard
  \<^verbatim>\<open>r["Per_Case"] > 0\<close>, so the divisor is a positive finite number or \<open>+inf\<close>
  whenever the quotient is used. A zero divisor makes Python raise
  \<^verbatim>\<open>ZeroDivisionError\<close>; the guard excludes it, and the equation for it below
  (NaN) is never looked at by the program.
\<close>

fun fl_div :: "rounding \<Rightarrow> fl \<Rightarrow> fl \<Rightarrow> fl" where
  "fl_div rnd NaN _ = NaN"
| "fl_div rnd _ NaN = NaN"
| "fl_div rnd (Fin a) (Fin b) = (if b = 0 then NaN else rnd (a / b))"
| "fl_div rnd (Fin _) PInf = Fin 0"
| "fl_div rnd (Fin _) NInf = Fin 0"
| "fl_div rnd PInf (Fin b) = (if b = 0 then NaN else fl_sign_inf (0 < b))"
| "fl_div rnd NInf (Fin b) = (if b = 0 then NaN else fl_sign_inf (b < 0))"
| "fl_div rnd _ _ = NaN"

text \<open>
  A cell of a column that \<^verbatim>\<open>pd.to_numeric(..., errors="coerce")\<close> reads: either it
  converts to a float (a number, numeric text; NaN for an empty cell), or it does not
  (any other text or object).
\<close>

datatype cell = Num fl | NonNumeric

section \<open>Tables\<close>

text \<open>
  The frames have the columns that \<^verbatim>\<open>load_components_and_onhand\<close> gives them
  (lines 36-38 and 46): \<^verbatim>\<open>components\<close> has Component, Per_Case and UOM;
  \<^verbatim>\<open>onhand_df\<close> has Component and On_Hand. A frame is the list of its rows, in index
  order. Component and UOM hold text; a string is the list of the bytes of its UTF-8
  encoding, whose lexicographic order is the order of Python's \<^verbatim>\<open>str\<close>.
\<close>

record 'a formula_row =
  Component :: string
  Per_Case :: 'a
  UOM :: string

record 'a merged_row = "'a formula_row" +
  On_Hand :: 'a

record result_row = "fl merged_row" +
  Required :: fl
  Remaining :: fl

text \<open>A row of \<^verbatim>\<open>onhand_df\<close>: its Component and its On_Hand.\<close>

type_synonym stock_row = "string \<times> cell"

text \<open>
  The exceptions: \<^verbatim>\<open>math.floor\<close> raises the first two; a frame that lacks a column the
  code reads raises \<^verbatim>\<open>KeyError\<close>.
\<close>

datatype error = ValueError | OverflowError | KeyError

section \<open>The stages of \<^verbatim>\<open>compute_results\<close>\<close>

definition with_On_Hand :: "cell formula_row \<Rightarrow> cell \<Rightarrow> cell merged_row" where
  "with_On_Hand l v =
     \<lparr>Component = Component l, Per_Case = Per_Case l, UOM = UOM l, On_Hand = v\<rparr>"

text \<open>
  \<^verbatim>\<open>df.merge(onhand_df, on="Component", how="left")\<close> (line 54): the rows of the left
  frame in their order; each one is paired with every row of the right frame that has
  an equal key, in the right frame's order, and with NaN when there is none.
\<close>

definition matches :: "stock_row list \<Rightarrow> string \<Rightarrow> cell list" where
  "matches right k = map snd (filter (\<lambda>s. fst s = k) right)"

definition merge_row :: "stock_row list \<Rightarrow> cell formula_row \<Rightarrow> cell merged_row list" where
  "merge_row right l =
     (case matches right (Component l) of
        [] \<Rightarrow> [with_On_Hand l (Num NaN)]
      | v # vs \<Rightarrow> map (with_On_Hand l) (v # vs))"

definition merge_left :: "cell formula_row list \<Rightarrow> stock_row list \<Rightarrow> cell merged_row list" where
  "merge_left left right = concat (map (merge_row right) left)"

text \<open>
  Lines 52-56: the copy of \<^verbatim>\<open>components\<close>, merged with \<^verbatim>\<open>onhand_df\<close> when there is
  one; otherwise the column On_Hand is created, 0.0 in every row.
\<close>

definition merged :: "cell formula_row list \<Rightarrow> stock_row list option \<Rightarrow> cell merged_row list" where
  "merged components onhand_df =
     (case onhand_df of
        Some right \<Rightarrow> merge_left components right
      | None \<Rightarrow> map (\<lambda>l. with_On_Hand l (Num (Fin 0))) components)"

text \<open>
  \<^verbatim>\<open>pd.to_numeric(x, errors="coerce")\<close> and \<^verbatim>\<open>.fillna(0.0)\<close> on one cell
  (lines 58-59).
\<close>

fun to_numeric :: "cell \<Rightarrow> fl" where
  "to_numeric (Num x) = x"
| "to_numeric NonNumeric = NaN"

definition fillna :: "fl \<Rightarrow> fl \<Rightarrow> fl" where
  "fillna d x = (if x = NaN then d else x)"

definition normalize_cell :: "cell \<Rightarrow> fl" where
  "normalize_cell c = fillna (Fin 0) (to_numeric c)"

definition normalize_row :: "cell merged_row \<Rightarrow> fl merged_row" where
  "normalize_row r =
     \<lparr>Component = Component r, Per_Case = normalize_cell (Per_Case r), UOM = UOM r,
      On_Hand = normalize_cell (On_Hand r)\<rparr>"

definition normalize_frame :: "cell merged_row list \<Rightarrow> fl merged_row list" where
  "normalize_frame df = map normalize_row df"

text \<open>Lines 61-62: the columns Required and Remaining.\<close>

definition derive_row :: "rounding \<Rightarrow> fl \<Rightarrow> fl merged_row \<Rightarrow> result_row" where
  "derive_row rnd cases_sold r =
     (let required = fl_mul rnd (Per_Case r) cases_sold
      in \<lparr>Component = Component r, Per_Case = Per_Case r, UOM = UOM r, On_Hand = On_Hand r,
          Required = required, Remaining = fl_sub rnd (On_Hand r) required\<rparr>)"

definition derive :: "rounding \<Rightarrow> fl \<Rightarrow> fl merged_row list \<Rightarrow> result_row list" where
  "derive rnd cases_sold df = map (derive_row rnd cases_sold) df"

text \<open>The frame \<^verbatim>\<open>df\<close> as it stands after line 62.\<close>

definition reconciled ::
  "rounding \<Rightarrow> cell formula_row list \<Rightarrow> stock_row list option \<Rightarrow> fl \<Rightarrow> result_row list" where
  "reconciled rnd components onhand_df cases_sold =
     derive rnd cases_sold (normalize_frame (merged components onhand_df))"

text \<open>
  Lines 64-69. \<^verbatim>\<open>Series.min()\<close> skips NaN and is NaN when nothing is left;
  \<^verbatim>\<open>math.floor\<close> raises \<^verbatim>\<open>ValueError\<close> on NaN and \<^verbatim>\<open>OverflowError\<close> on an infinity.
\<close>

definition fl_min2 :: "fl \<Rightarrow> fl \<Rightarrow> fl" where
  "fl_min2 a b = (if fl_less b a then b else a)"

definition series_min :: "fl list \<Rightarrow> fl" where
  "series_min xs =
     (case filter (\<lambda>x. x \<noteq> NaN) xs of
        [] \<Rightarrow> NaN
      | y # ys \<Rightarrow> fold fl_min2 ys y)"

fun math_floor :: "fl \<Rightarrow> error + int" where
  "math_floor (Fin q) = Inr \<lfloor>q\<rfloor>"
| "math_floor NaN = Inl ValueError"
| "math_floor PInf = Inl OverflowError"
| "math_floor NInf = Inl OverflowError"

definition is_candidate :: "result_row \<Rightarrow> bool" where
  "is_candidate r = fl_less (Fin 0) (Per_Case r)"

definition max_cases_by_item :: "rounding \<Rightarrow> result_row \<Rightarrow> fl" where
  "max_cases_by_item rnd r =
     (if fl_less (Fin 0) (Per_Case r) then fl_div rnd (On_Hand r) (Per_Case r) else PInf)"

definition max_sellable :: "rounding \<Rightarrow> result_row list \<Rightarrow> error + int" where
  "max_sellable rnd df =
     (let candidates = filter is_candidate df
      in if candidates \<noteq> [] then math_floor (series_min (map (max_cases_by_item rnd) df))
         else Inr 0)"

text \<open>Line 71: the rows whose Remaining is below zero, in the order of \<^verbatim>\<open>df\<close>.\<close>

definition shortages :: "result_row list \<Rightarrow> result_row list" where
  "shortages df = filter (\<lambda>r. fl_less (Remaining r) (Fin 0)) df"

text \<open>
  Line 72: \<^verbatim>\<open>sort_values("Component")\<close>, ascending in the order of \<^verbatim>\<open>str\<close>. Rows
  with equal keys are kept in their order here; pandas' default sort promises no order
  among them, and nothing below depends on it.
\<close>

definition display :: "result_row list \<Rightarrow> result_row list" where
  "display df = sort_key Component df"

definition compute_results ::
  "rounding \<Rightarrow> cell formula_row list \<Rightarrow> stock_row list option \<Rightarrow> fl
     \<Rightarrow> error + (result_row list \<times> int \<times> result_row list)" where
  "compute_results rnd components onhand_df cases_sold =
     (let df = reconciled rnd components onhand_df cases_sold
      in case max_sellable rnd df of
           Inl e \<Rightarrow> Inl e
         | Inr m \<Rightarrow> Inr (display df, m, shortages df))"

text \<open>
  One merged row taken through lines 58-62, and the test that a Component has no row
  in the stock table (or that there is no stock table).
\<close>

definition finish :: "rounding \<Rightarrow> fl \<Rightarrow> cell merged_row \<Rightarrow> result_row" where
  "finish rnd cases_sold m = derive_row rnd cases_sold (normalize_row m)"

definition unmatched :: "stock_row list option \<Rightarrow> string \<Rightarrow> bool" where
  "unmatched onhand_df k = (case onhand_df of None \<Rightarrow> True | Some right \<Rightarrow> k \<notin> fst ` set right)"

section \<open>The function on a store\<close>

text \<open>
  A pandas frame is a mutable object and \<^verbatim>\<open>compute_results\<close> receives references. To
  say what the call does to its arguments, the same statements are written once more
  over a store of frames: \<^verbatim>\<open>copy\<close>, \<^verbatim>\<open>merge\<close>, a selection and
  \<^verbatim>\<open>sort_values\<close> build a new object, and the assignment \<^verbatim>\<open>df[col] = ...\<close> changes
  the object that \<^verbatim>\<open>df\<close> refers to. A frame is tagged with the columns it has.
\<close>

type_synonym addr = nat

datatype frame =
    Formula_Frame "cell formula_row list"
  | Stock_Frame "stock_row list"
  | Merged_Frame "cell merged_row list"
  | Numeric_Frame "fl merged_row list"
  | Result_Frame "result_row list" "fl list option"

text \<open>
  \<open>Result_Frame rows col\<close> has the six columns of \<open>rows\<close> and, once line 66 has run,
  the column MaxCasesByItem \<open>col\<close>. The store is the list of the objects allocated so
  far; an address is an index into it, and no Python reference points outside it
  (the model answers \<open>KeyError\<close> there).
\<close>

type_synonym heap = "frame list"

type_synonym 'a prog = "heap \<Rightarrow> (error + 'a) \<times> heap"

definition return :: "'a \<Rightarrow> 'a prog" where
  "return x h = (Inr x, h)"

definition raise :: "error \<Rightarrow> 'a prog" where
  "raise e h = (Inl e, h)"

definition bind :: "'a prog \<Rightarrow> ('a \<Rightarrow> 'b prog) \<Rightarrow> 'b prog" where
  "bind m f h = (case m h of (Inl e, h') \<Rightarrow> (Inl e, h') | (Inr x, h') \<Rightarrow> f x h')"

definition lookup :: "addr \<Rightarrow> frame option prog" where
  "lookup a h = (if a < length h then (Inr (Some (h ! a)), h) else (Inr None, h))"

definition alloc :: "frame \<Rightarrow> addr prog" where
  "alloc f h = (Inr (length h), h @ [f])"

definition assign :: "addr \<Rightarrow> frame \<Rightarrow> unit prog" where
  "assign a f h = (Inr (), h[a := f])"

text \<open>Line 52: \<^verbatim>\<open>df = components.copy()\<close>.\<close>

definition copy_frame :: "addr \<Rightarrow> addr prog" where
  "copy_frame a =
     bind (lookup a) (\<lambda>f. case f of None \<Rightarrow> raise KeyError | Some f \<Rightarrow> alloc f)"

text \<open>Line 54: \<^verbatim>\<open>df = df.merge(onhand_df, on="Component", how="left")\<close>.\<close>

definition merge_frames :: "addr \<Rightarrow> addr \<Rightarrow> addr prog" where
  "merge_frames l r =
     bind (lookup l) (\<lambda>lf. bind (lookup r) (\<lambda>rf.
       case (lf, rf) of
         (Some (Formula_Frame left), Some (Stock_Frame right)) \<Rightarrow>
           alloc (Merged_Frame (merge_left left right))
       | _ \<Rightarrow> raise KeyError))"

text \<open>Lines 55-56: \<^verbatim>\<open>if "On_Hand" not in df.columns: df["On_Hand"] = 0.0\<close>.\<close>

definition default_On_Hand :: "addr \<Rightarrow> unit prog" where
  "default_On_Hand df =
     bind (lookup df) (\<lambda>f.
       case f of
         Some (Formula_Frame rows) \<Rightarrow>
           assign df (Merged_Frame (map (\<lambda>l. with_On_Hand l (Num (Fin 0))) rows))
       | Some _ \<Rightarrow> return ()
       | None \<Rightarrow> raise KeyError)"

text \<open>Lines 58-59: the two columns are replaced in \<^verbatim>\<open>df\<close>.\<close>

definition normalize_in_place :: "addr \<Rightarrow> unit prog" where
  "normalize_in_place df =
     bind (lookup df) (\<lambda>f.
       case f of
         Some (Merged_Frame rows) \<Rightarrow> assign df (Numeric_Frame (normalize_frame rows))
       | _ \<Rightarrow> raise KeyError)"

text \<open>Lines 61-62: the two columns are added to \<^verbatim>\<open>df\<close>.\<close>

definition derive_in_place :: "rounding \<Rightarrow> fl \<Rightarrow> addr \<Rightarrow> unit prog" where
  "derive_in_place rnd cases_sold df =
     bind (lookup df) (\<lambda>f.
       case f of
         Some (Numeric_Frame rows) \<Rightarrow> assign df (Result_Frame (derive rnd cases_sold rows) None)
       | _ \<Rightarrow> raise KeyError)"

text \<open>
  Lines 64-69: \<^verbatim>\<open>candidates\<close> is a new object that is only tested for emptiness; the
  column MaxCasesByItem is added to \<^verbatim>\<open>df\<close> before \<^verbatim>\<open>math.floor\<close> can raise.
\<close>

definition max_sellable_in_place :: "rounding \<Rightarrow> addr \<Rightarrow> int prog" where
  "max_sellable_in_place rnd df =
     bind (lookup df) (\<lambda>f.
       case f of
         Some (Result_Frame rows _) \<Rightarrow>
           if filter is_candidate rows \<noteq> [] then
             bind (assign df (Result_Frame rows (Some (map (max_cases_by_item rnd) rows))))
               (\<lambda>_. case math_floor (series_min (map (max_cases_by_item rnd) rows)) of
                      Inl e \<Rightarrow> raise e
                    | Inr m \<Rightarrow> return m)
           else return 0
       | _ \<Rightarrow> raise KeyError)"

text \<open>Lines 71-73: two new frames, made from the six columns of \<^verbatim>\<open>df\<close>, are returned.\<close>

definition select_results :: "addr \<Rightarrow> (result_row list \<times> result_row list) prog" where
  "select_results df =
     bind (lookup df) (\<lambda>f.
       case f of
         Some (Result_Frame rows _) \<Rightarrow> return (display rows, shortages rows)
       | _ \<Rightarrow> raise KeyError)"

definition compute_results_store ::
  "rounding \<Rightarrow> addr \<Rightarrow> addr option \<Rightarrow> fl \<Rightarrow> (result_row list \<times> int \<times> result_row list) prog" where
  "compute_results_store rnd components onhand_df cases_sold =
     bind (copy_frame components) (\<lambda>df0.
     bind (case onhand_df of Some oh \<Rightarrow> merge_frames df0 oh | None \<Rightarrow> return df0) (\<lambda>df.
     bind (default_On_Hand df) (\<lambda>_.
     bind (normalize_in_place df) (\<lambda>_.
     bind (derive_in_place rnd cases_sold df) (\<lambda>_.
     bind (max_sellable_in_place rnd df) (\<lambda>max_sellable.
     bind (select_results df) (\<lambda>(display_df, shortages_df).
     return (display_df, max_sellable, shortages_df))))))))"

text \<open>
  A program leaves the first \<open>n\<close> objects of the store alone, and its result
  satisfies \<open>Q\<close>.
\<close>

definition keeps :: "nat \<Rightarrow> 'a prog \<Rightarrow> ('a \<Rightarrow> bool) \<Rightarrow> bool" where
  "keeps n p Q =
     (\<forall>h. n \<le> length h \<longrightarrow>
        (case p h of (r, h') \<Rightarrow>
           n \<le> length h' \<and> take n h' = take n h \<and> (case r of Inl _ \<Rightarrow> True | Inr x \<Rightarrow> Q x)))"

text \<open>
  The arguments of a call, read from the store: \<^verbatim>\<open>components\<close> refers to a formula
  frame with rows \<open>F\<close>, and \<^verbatim>\<open>onhand_df\<close> is \<^verbatim>\<open>None\<close> or refers to a stock frame.
\<close>

definition argument_frames ::
  "heap \<Rightarrow> addr \<Rightarrow> addr option \<Rightarrow> cell formula_row list \<Rightarrow> stock_row list option \<Rightarrow> bool" where
  "argument_frames h components onhand_df F oh =
     (components < length h \<and> h ! components = Formula_Frame F \<and>
      (case (onhand_df, oh) of
         (None, None) \<Rightarrow> True
       | (Some a, Some S) \<Rightarrow> a < length h \<and> h ! a = Stock_Frame S
       | _ \<Rightarrow> False))"

section \<open>What the specification asks for\<close>

text \<open>
  Python's \<^verbatim>\<open>str.lower\<close> and \<^verbatim>\<open>str.strip\<close> on ASCII text (the program applies them to
  column names, lines 28 and 44, never to a Component), and the identity rule of
  the specification: lowercased, trimmed.
\<close>

definition lower_char :: "char \<Rightarrow> char" where
  "lower_char c =
     (if CHR ''A'' \<le> c \<and> c \<le> CHR ''Z'' then char_of (of_char c + (32::nat)) else c)"

definition lower :: "string \<Rightarrow> string" where
  "lower s = map lower_char s"

definition is_space :: "char \<Rightarrow> bool" where
  "is_space c = (c \<in> set [CHR '' '', CHR 0x09, CHR 0x0A, CHR 0x0B, CHR 0x0C, CHR 0x0D])"

definition strip :: "string \<Rightarrow> string" where
  "strip s = rev (dropWhile is_space (rev (dropWhile is_space s)))"

definition normalized_identity_spec :: "string \<Rightarrow> string" where
  "normalized_identity_spec s = lower (strip s)"

text \<open>
  The constraining material as the specification describes it: among the rows with
  a positive Per_Case, the one with the least ratio On_Hand / Per_Case, the least
  Component among equal ratios; none when there is no such row.
\<close>

definition ratio :: "rounding \<Rightarrow> result_row \<Rightarrow> fl" where
  "ratio rnd r = fl_div rnd (On_Hand r) (Per_Case r)"

definition more_constraining_spec :: "rounding \<Rightarrow> result_row \<Rightarrow> result_row \<Rightarrow> result_row" where
  "more_constraining_spec rnd r best =
     (if fl_less (ratio rnd r) (ratio rnd best) \<or>
         (ratio rnd r = ratio rnd best \<and> Component r < Component best)
      then r else best)"

definition constrainingMaterial_spec :: "rounding \<Rightarrow> result_row list \<Rightarrow> string option" where
  "constrainingMaterial_spec rnd rows =
     (case filter is_candidate rows of
        [] \<Rightarrow> None
      | c # cs \<Rightarrow> Some (Component (fold (more_constraining_spec rnd) cs c)))"

section \<open>Inputs used in the examples\<close>

definition formula_entry :: "string \<Rightarrow> cell \<Rightarrow> string \<Rightarrow> cell formula_row" where
  "formula_entry c p u = \<lparr>Component = c, Per_Case = p, UOM = u\<rparr>"

definition result_entry :: "string \<Rightarrow> rat \<Rightarrow> rat \<Rightarrow> rat \<Rightarrow> rat \<Rightarrow> result_row" where
  "result_entry c on_hand per_case required remaining =
     \<lparr>Component = c, Per_Case = Fin per_case, UOM = ''ea'', On_Hand = Fin on_hand,
      Required = Fin required, Remaining = Fin remaining\<rparr>"

text \<open>Bottle and Cap, one of each per case.\<close>

definition bottle_cap :: "cell formula_row list" where
  "bottle_cap = [formula_entry ''Bottle'' (Num (Fin 1)) ''ea'', formula_entry ''Cap'' (Num (Fin 1)) ''ea'']"

text \<open>On small whole numbers float arithmetic is exact.\<close>

definition exact :: rounding where
  "exact q = Fin q"

section \<open>The merge\<close>

lemmas example_defs =
  formula_entry_def result_entry_def bottle_cap_def exact_def

lemmas stage_defs =
  merged_def merge_left_def merge_row_def matches_def with_On_Hand_def
  normalize_frame_def normalize_row_def normalize_cell_def fillna_def
  derive_def derive_row_def reconciled_def

lemma in_fst_image: "(k, v) \<in> A \<Longrightarrow> k \<in> fst ` A"
  by force

lemma length_merge_row:
  "length (merge_row S l) = max 1 (length (matches S (Component l)))"
  by (simp add: merge_row_def split: list.split)

lemma length_merge_left:
  "length (merge_left F S) = (\<Sum>l\<leftarrow>F. max 1 (length (matches S (Component l))))"
  by (simp add: merge_left_def length_concat comp_def length_merge_row)

lemma length_matches_distinct:
  "distinct (map fst S) \<Longrightarrow> length (matches S k) \<le> 1"
  unfolding matches_def
proof (induction S)
  case Nil
  then show ?case by simp
next
  case (Cons s S)
  have "fst s = k \<Longrightarrow> filter (\<lambda>s. fst s = k) S = []"
    using Cons.prems by (auto simp: filter_empty_conv dest: in_fst_image)
  then show ?case using Cons by auto
qed

lemma sum_list_const_one:
  "(\<And>x. x \<in> set xs \<Longrightarrow> f x = (1::nat)) \<Longrightarrow> sum_list (map f xs) = length xs"
  by (induction xs) auto

text \<open>
  C1, as the code has it. A left merge gives each formula row one output row per stock
  row with the same Component, and one row when there is none. So the output has
  \<open>|F|\<close> rows when no Component occurs twice in the stock table, and when there is
  no stock table; a formula row that meets \<open>k > 1\<close> stock rows gives \<open>k\<close> rows.
\<close>

theorem merge_row_count:
  "length (merged F (Some S)) = (\<Sum>l\<leftarrow>F. max 1 (length (matches S (Component l)))) \<and>
   length (merged F None) = length F \<and>
   (distinct (map fst S) \<longrightarrow> length (merged F (Some S)) = length F)"
proof (intro conjI impI)
  show "length (merged F (Some S)) = (\<Sum>l\<leftarrow>F. max 1 (length (matches S (Component l))))"
    by (simp add: merged_def length_merge_left)
  show "length (merged F None) = length F"
    by (simp add: merged_def)
  assume d: "distinct (map fst S)"
  have "max 1 (length (matches S k)) = 1" for k
    using length_matches_distinct [OF d, of k] by (auto simp: max_def)
  then show "length (merged F (Some S)) = length F"
    by (simp add: merged_def length_merge_left sum_list_const_one)
qed

theorem merge_row_count_witness:
  "distinct (map fst [(''Bottle'', Num (Fin 10)), (''Cap'', Num (Fin 5))]) \<and>
   length (merged bottle_cap (Some [(''Bottle'', Num (Fin 10)), (''Cap'', Num (Fin 5))])) = 2"
  using merge_row_count [of bottle_cap "[(''Bottle'', Num (Fin 10)), (''Cap'', Num (Fin 5))]"]
  by (simp add: bottle_cap_def)

text \<open>
  C1 as stated fails: with Cap twice in the stock table, the two formula rows give
  three rows, and both stock values of Cap are in the output, not the last one only.
\<close>

theorem merge_duplicate_stock_counterexample:
  "length bottle_cap = 2 \<and>
   map (\<lambda>r. (Component r, On_Hand r))
     (merged bottle_cap (Some [(''Cap'', Num (Fin 1)), (''Cap'', Num (Fin 7))])) =
   [(''Bottle'', Num NaN), (''Cap'', Num (Fin 1)), (''Cap'', Num (Fin 7))]"
  by (simp add: example_defs stage_defs)

section \<open>Numeric normalization\<close>

text \<open>
  C3, as the code has it. The coercion of lines 58-59 is total (it raises nothing) and
  never yields NaN: a cell that is not numeric, or is NaN, becomes 0.0; every other
  number, a negative or an infinite one too, is kept as it is.
\<close>

theorem normalize_cell_result:
  "normalize_cell c \<noteq> NaN \<and>
   normalize_cell NonNumeric = Fin 0 \<and>
   normalize_cell (Num x) = (if x = NaN then Fin 0 else x) \<and>
   Per_Case (normalize_row r) = normalize_cell (Per_Case r) \<and>
   On_Hand (normalize_row r) = normalize_cell (On_Hand r)"
  by (cases c) (simp_all add: normalize_cell_def fillna_def normalize_row_def)

text \<open>
  C3 as stated fails: -5 stays -5, which is below zero, and the infinities stay
  infinite.
\<close>

theorem normalize_cell_counterexample:
  "normalize_cell (Num (Fin (- 5))) = Fin (- 5) \<and>
   fl_less (normalize_cell (Num (Fin (- 5)))) (Fin 0) \<and>
   normalize_cell (Num PInf) = PInf \<and>
   normalize_cell (Num NInf) = NInf"
  by (simp add: normalize_cell_def fillna_def)

section \<open>Derived columns\<close>

lemma set_display: "set (display df) = set df"
  by (simp add: display_def)

lemma length_display: "length (display df) = length df"
  by (simp add: display_def)

lemma length_reconciled: "length (reconciled rnd F oh q) = length (merged F oh)"
  by (simp add: reconciled_def derive_def normalize_frame_def)

text \<open>
  C2. Lines 61-62 give every row Required = Per_Case * cases_sold and
  Remaining = On_Hand - Required (float operations, on the normalized values) and leave
  the other columns and the number of rows alone; so does the returned table, which
  has one row per merged row. This holds for every order quantity.
\<close>

theorem derived_metrics:
  "length (derive rnd q df) = length df \<and>
   (\<forall>i<length df.
      Required (derive rnd q df ! i) = fl_mul rnd (Per_Case (df ! i)) q \<and>
      Remaining (derive rnd q df ! i) =
        fl_sub rnd (On_Hand (df ! i)) (Required (derive rnd q df ! i)) \<and>
      Component (derive rnd q df ! i) = Component (df ! i) \<and>
      UOM (derive rnd q df ! i) = UOM (df ! i) \<and>
      Per_Case (derive rnd q df ! i) = Per_Case (df ! i) \<and>
      On_Hand (derive rnd q df ! i) = On_Hand (df ! i)) \<and>
   length (display (reconciled rnd F oh q)) = length (merged F oh) \<and>
   (\<forall>r\<in>set (display (reconciled rnd F oh q)).
      Required r = fl_mul rnd (Per_Case r) q \<and>
      Remaining r = fl_sub rnd (On_Hand r) (Required r))"
proof (intro conjI)
  show "length (derive rnd q df) = length df"
    by (simp add: derive_def)
  show "\<forall>i<length df.
      Required (derive rnd q df ! i) = fl_mul rnd (Per_Case (df ! i)) q \<and>
      Remaining (derive rnd q df ! i) =
        fl_sub rnd (On_Hand (df ! i)) (Required (derive rnd q df ! i)) \<and>
      Component (derive rnd q df ! i) = Component (df ! i) \<and>
      UOM (derive rnd q df ! i) = UOM (df ! i) \<and>
      Per_Case (derive rnd q df ! i) = Per_Case (df ! i) \<and>
      On_Hand (derive rnd q df ! i) = On_Hand (df ! i)"
    by (simp add: derive_def derive_row_def Let_def)
  show "length (display (reconciled rnd F oh q)) = length (merged F oh)"
    by (simp add: length_display length_reconciled)
  show "\<forall>r\<in>set (display (reconciled rnd F oh q)).
      Required r = fl_mul rnd (Per_Case r) q \<and>
      Remaining r = fl_sub rnd (On_Hand r) (Required r)"
    by (auto simp: set_display reconciled_def derive_def derive_row_def Let_def)
qed

theorem derived_metrics_witness:
  "(0::nat) < length [\<lparr>Component = ''Bottle'', Per_Case = Fin 1, UOM = ''ea'', On_Hand = Fin 10\<rparr>] \<and>
   Required (derive exact (Fin 4)
     [\<lparr>Component = ''Bottle'', Per_Case = Fin 1, UOM = ''ea'', On_Hand = Fin 10\<rparr>] ! 0) = Fin 4 \<and>
   Remaining (derive exact (Fin 4)
     [\<lparr>Component = ''Bottle'', Per_Case = Fin 1, UOM = ''ea'', On_Hand = Fin 10\<rparr>] ! 0) = Fin 6 \<and>
   length (display (reconciled exact bottle_cap
     (Some [(''Bottle'', Num (Fin 10)), (''Cap'', Num (Fin 5))]) (Fin 4))) = 2 \<and>
   map Remaining (display (reconciled exact bottle_cap
     (Some [(''Bottle'', Num (Fin 10)), (''Cap'', Num (Fin 5))]) (Fin 4))) = [Fin 6, Fin 1]"
  using derived_metrics [of exact "Fin 4"
      "[\<lparr>Component = ''Bottle'', Per_Case = Fin 1, UOM = ''ea'', On_Hand = Fin 10\<rparr>]"
      bottle_cap "Some [(''Bottle'', Num (Fin 10)), (''Cap'', Num (Fin 5))]"]
  by (simp add: example_defs stage_defs display_def)

section \<open>Shortages\<close>

text \<open>
  C8. The shortage table holds exactly the rows of \<^verbatim>\<open>df\<close> whose Remaining is below
  zero, in the order of \<^verbatim>\<open>df\<close>: a row with Remaining 0 is not in it, a row with
  Remaining -0.0001 is.
\<close>

theorem shortages_exact:
  "shortages df = filter (\<lambda>r. fl_less (Remaining r) (Fin 0)) df \<and>
   (r \<in> set (shortages df) \<longleftrightarrow> r \<in> set df \<and> fl_less (Remaining r) (Fin 0)) \<and>
   (Remaining r = Fin 0 \<longrightarrow> r \<notin> set (shortages df)) \<and>
   (r \<in> set df \<and> Remaining r = Fin (- 1 / 10000) \<longrightarrow> r \<in> set (shortages df))"
  by (auto simp: shortages_def)

theorem shortages_exact_witness:
  "Remaining (result_entry ''Cap'' 4 1 4 0) = Fin 0 \<and>
   result_entry ''Cap'' 4 1 4 0 \<notin>
     set (shortages [result_entry ''Cap'' 4 1 4 0, result_entry ''Lid'' 0 (1 / 10000) (1 / 10000) (- 1 / 10000)]) \<and>
   Remaining (result_entry ''Lid'' 0 (1 / 10000) (1 / 10000) (- 1 / 10000)) = Fin (- 1 / 10000) \<and>
   result_entry ''Lid'' 0 (1 / 10000) (1 / 10000) (- 1 / 10000) \<in>
     set (shortages [result_entry ''Cap'' 4 1 4 0, result_entry ''Lid'' 0 (1 / 10000) (1 / 10000) (- 1 / 10000)])"
  using
    shortages_exact [of "[result_entry ''Cap'' 4 1 4 0,
        result_entry ''Lid'' 0 (1 / 10000) (1 / 10000) (- 1 / 10000)]"
      "result_entry ''Cap'' 4 1 4 0"]
    shortages_exact [of "[result_entry ''Cap'' 4 1 4 0,
        result_entry ''Lid'' 0 (1 / 10000) (1 / 10000) (- 1 / 10000)]"
      "result_entry ''Lid'' 0 (1 / 10000) (1 / 10000) (- 1 / 10000)"]
  by (simp add: result_entry_def)

section \<open>The join key\<close>

lemma matches_empty_iff: "matches S k = [] \<longleftrightarrow> k \<notin> fst ` set S"
  by (auto simp: matches_def filter_empty_conv image_iff)

lemma set_matches: "set (matches S k) = {v. (k, v) \<in> set S}"
  by (auto simp: matches_def image_iff)

lemma set_merge_row:
  "set (merge_row S l) =
     (if Component l \<in> fst ` set S then {with_On_Hand l v | v. (Component l, v) \<in> set S}
      else {with_On_Hand l (Num NaN)})"
proof (cases "matches S (Component l)")
  case Nil
  then show ?thesis using matches_empty_iff [of S "Component l"] by (simp add: merge_row_def)
next
  case (Cons v vs)
  then have "Component l \<in> fst ` set S"
    using matches_empty_iff [of S "Component l"] by simp
  moreover have "set (merge_row S l) = with_On_Hand l ` set (matches S (Component l))"
    using Cons by (simp add: merge_row_def)
  ultimately show ?thesis by (auto simp: set_matches)
qed

lemma set_merge_left:
  "set (merge_left F S) =
     {with_On_Hand l v | l v. l \<in> set F \<and> (Component l, v) \<in> set S} \<union>
     {with_On_Hand l (Num NaN) | l. l \<in> set F \<and> Component l \<notin> fst ` set S}"
  unfolding merge_left_def set_concat set_map
  by (auto simp: set_merge_row split: if_splits dest: in_fst_image)

text \<open>
  C7, as the code has it. The merge joins on the Component as it is written: a formula
  row and a stock row are paired exactly when their Component strings are equal, and
  a formula row gets NaN exactly when no stock row has an equal Component.
\<close>

theorem join_on_equal_Component:
  "set (merged F (Some S)) =
     {with_On_Hand l v | l v. l \<in> set F \<and> (Component l, v) \<in> set S} \<union>
     {with_On_Hand l (Num NaN) | l. l \<in> set F \<and> \<not> (\<exists>v. (Component l, v) \<in> set S)}"
proof -
  have "Component l \<notin> fst ` set S \<longleftrightarrow> \<not> (\<exists>v. (Component l, v) \<in> set S)" for l :: "cell formula_row"
    by (auto simp: image_iff)
  then show ?thesis by (simp add: merged_def set_merge_left)
qed

text \<open>
  C7 as stated fails: the formula's \<open>Cap\<close> and the stock table's \<open>cap\<close> followed
  by a blank are the same identity once lowercased and trimmed, and the merge does not
  pair them: the stock of 5 is lost and On_Hand ends as 0.0.
\<close>

theorem join_counterexample:
  "normalized_identity_spec ''Cap'' = normalized_identity_spec ''cap '' \<and>
   merged [formula_entry ''Cap'' (Num (Fin 1)) ''ea''] (Some [(''cap '', Num (Fin 5))]) =
     [with_On_Hand (formula_entry ''Cap'' (Num (Fin 1)) ''ea'') (Num NaN)] \<and>
   map On_Hand (reconciled exact [formula_entry ''Cap'' (Num (Fin 1)) ''ea'']
     (Some [(''cap '', Num (Fin 5))]) (Fin 1)) = [Fin 0]"
proof (intro conjI)
  show "normalized_identity_spec ''Cap'' = normalized_identity_spec ''cap ''"
    by code_simp
  show "merged [formula_entry ''Cap'' (Num (Fin 1)) ''ea''] (Some [(''cap '', Num (Fin 5))]) =
     [with_On_Hand (formula_entry ''Cap'' (Num (Fin 1)) ''ea'') (Num NaN)]"
    by (simp add: example_defs stage_defs)
  show "map On_Hand (reconciled exact [formula_entry ''Cap'' (Num (Fin 1)) ''ea'']
     (Some [(''cap '', Num (Fin 5))]) (Fin 1)) = [Fin 0]"
    by (simp add: example_defs stage_defs Let_def)
qed

section \<open>Materials without stock\<close>

lemma reconciled_map: "reconciled rnd F oh q = map (finish rnd q) (merged F oh)"
  by (simp add: reconciled_def derive_def normalize_frame_def finish_def)

lemma finish_fields [simp]:
  "Component (finish rnd q (with_On_Hand l v)) = Component l"
  "UOM (finish rnd q (with_On_Hand l v)) = UOM l"
  "Per_Case (finish rnd q (with_On_Hand l v)) = normalize_cell (Per_Case l)"
  "On_Hand (finish rnd q (with_On_Hand l v)) = normalize_cell v"
  by (simp_all add: finish_def derive_row_def normalize_row_def with_On_Hand_def Let_def)

lemma normalize_cell_zero [simp]:
  "normalize_cell (Num NaN) = Fin 0" "normalize_cell (Num (Fin 0)) = Fin 0"
  by (simp_all add: normalize_cell_def fillna_def)

lemma set_merged_cases:
  "m \<in> set (merged F oh) \<Longrightarrow>
     \<exists>l\<in>set F. \<exists>v. m = with_On_Hand l v \<and>
        (unmatched oh (Component l) \<longrightarrow> normalize_cell v = Fin 0)"
proof (cases oh)
  case None
  assume "m \<in> set (merged F oh)"
  then obtain l where "l \<in> set F" "m = with_On_Hand l (Num (Fin 0))"
    using None by (auto simp: merged_def)
  then show ?thesis by (intro bexI [of _ l] exI [of _ "Num (Fin 0)"]) simp_all
next
  case (Some S)
  assume "m \<in> set (merged F oh)"
  then consider
      (hit) l v where "l \<in> set F" "m = with_On_Hand l v" "(Component l, v) \<in> set S"
    | (miss) l where "l \<in> set F" "m = with_On_Hand l (Num NaN)"
    using Some by (auto simp: merged_def set_merge_left)
  then show ?thesis
  proof cases
    case hit
    have "\<not> unmatched oh (Component l)"
      using hit(3) Some by (auto simp: unmatched_def dest: in_fst_image)
    then show ?thesis using hit by (intro bexI [of _ l] exI [of _ v]) simp_all
  next
    case miss
    then show ?thesis by (intro bexI [of _ l] exI [of _ "Num NaN"]) simp_all
  qed
qed

lemma merged_has_row:
  "l \<in> set F \<Longrightarrow> \<exists>v. with_On_Hand l v \<in> set (merged F oh)"
proof (cases oh)
  case None
  assume "l \<in> set F"
  then show ?thesis using None by (auto simp: merged_def)
next
  case (Some S)
  assume l: "l \<in> set F"
  show ?thesis
  proof (cases "Component l \<in> fst ` set S")
    case True
    then obtain v where "(Component l, v) \<in> set S" by auto
    then show ?thesis using l Some by (auto simp: merged_def set_merge_left)
  next
    case False
    then show ?thesis using l Some by (auto simp: merged_def set_merge_left)
  qed
qed

text \<open>
  C6. Every formula row has a row in the result with its Component, UOM and normalized
  Per_Case; a result row whose Component has no row in the stock table (or when there
  is no stock table) has On_Hand 0.0; the result has the Components of the formula, no
  fewer rows than the formula, and the returned table has the same rows.
\<close>

theorem missing_stock_is_zero:
  "(\<forall>l\<in>set F. \<exists>r\<in>set (reconciled rnd F oh q).
       Component r = Component l \<and> UOM r = UOM l \<and> Per_Case r = normalize_cell (Per_Case l)) \<and>
   (\<forall>r\<in>set (reconciled rnd F oh q). unmatched oh (Component r) \<longrightarrow> On_Hand r = Fin 0) \<and>
   Component ` set (reconciled rnd F oh q) = Component ` set F \<and>
   length F \<le> length (reconciled rnd F oh q) \<and>
   set (display (reconciled rnd F oh q)) = set (reconciled rnd F oh q)"
proof (intro conjI ballI impI)
  fix l assume "l \<in> set F"
  then obtain v where "with_On_Hand l v \<in> set (merged F oh)"
    using merged_has_row by blast
  then have "finish rnd q (with_On_Hand l v) \<in> set (reconciled rnd F oh q)"
    by (simp add: reconciled_map)
  then show "\<exists>r\<in>set (reconciled rnd F oh q).
       Component r = Component l \<and> UOM r = UOM l \<and> Per_Case r = normalize_cell (Per_Case l)"
    by (rule rev_bexI) simp
next
  fix r assume r: "r \<in> set (reconciled rnd F oh q)" and u: "unmatched oh (Component r)"
  from r obtain m where m: "m \<in> set (merged F oh)" "r = finish rnd q m"
    by (auto simp: reconciled_map)
  from set_merged_cases [OF m(1)] obtain l v where
    lv: "l \<in> set F" "m = with_On_Hand l v" "unmatched oh (Component l) \<longrightarrow> normalize_cell v = Fin 0"
    by blast
  show "On_Hand r = Fin 0" using u lv m(2) by simp
next
  show "Component ` set (reconciled rnd F oh q) = Component ` set F"
  proof (intro equalityI subsetI)
    fix k assume "k \<in> Component ` set (reconciled rnd F oh q)"
    then obtain m where m: "m \<in> set (merged F oh)" "k = Component (finish rnd q m)"
      by (auto simp: reconciled_map)
    from set_merged_cases [OF m(1)] m(2) show "k \<in> Component ` set F" by auto
  next
    fix k assume "k \<in> Component ` set F"
    then obtain l where l: "l \<in> set F" "k = Component l" by auto
    then obtain v where "with_On_Hand l v \<in> set (merged F oh)"
      using merged_has_row by blast
    then have "finish rnd q (with_On_Hand l v) \<in> set (reconciled rnd F oh q)"
      by (simp add: reconciled_map)
    then show "k \<in> Component ` set (reconciled rnd F oh q)"
      using l(2) by (metis finish_fields(1) image_eqI)
  qed
next
  have "length F \<le> length (merged F oh)"
  proof (cases oh)
    case None
    then show ?thesis by (simp add: merged_def)
  next
    case (Some S)
    have "length F \<le> (\<Sum>l\<leftarrow>F. max 1 (length (matches S (Component l))))"
      by (induction F) auto
    then show ?thesis using Some by (simp add: merged_def length_merge_left)
  qed
  then show "length F \<le> length (reconciled rnd F oh q)"
    by (simp add: length_reconciled)
next
  show "set (display (reconciled rnd F oh q)) = set (reconciled rnd F oh q)"
    by (rule set_display)
qed

theorem missing_stock_is_zero_witness:
  "formula_entry ''Cap'' (Num (Fin 1)) ''ea'' \<in> set bottle_cap \<and>
   unmatched (Some [(''Bottle'', Num (Fin 2))]) ''Cap'' \<and>
   map (\<lambda>r. (Component r, On_Hand r))
     (reconciled exact bottle_cap (Some [(''Bottle'', Num (Fin 2))]) (Fin 3)) =
     [(''Bottle'', Fin 2), (''Cap'', Fin 0)]"
  using missing_stock_is_zero [of bottle_cap exact "Some [(''Bottle'', Num (Fin 2))]" "Fin 3"]
  by (simp add: example_defs stage_defs unmatched_def Let_def)

section \<open>The order of the result\<close>

lemma mset_matches:
  "mset (matches S k) = image_mset snd (filter_mset (\<lambda>s. fst s = k) (mset S))"
  by (simp add: matches_def)

lemma merge_row_if:
  "merge_row S l =
     (if matches S (Component l) = [] then [with_On_Hand l (Num NaN)]
      else map (with_On_Hand l) (matches S (Component l)))"
  by (simp add: merge_row_def split: list.split)

lemma mset_merge_row:
  "mset (merge_row S l) =
     (if mset (matches S (Component l)) = {#} then {#with_On_Hand l (Num NaN)#}
      else image_mset (with_On_Hand l) (mset (matches S (Component l))))"
  by (simp add: merge_row_if)

lemma mset_merge_row_cong:
  "mset S = mset S' \<Longrightarrow> mset (merge_row S l) = mset (merge_row S' l)"
  by (simp only: mset_merge_row mset_matches)

lemma mset_merge_left:
  "mset (merge_left F S) = (\<Sum>l\<in>#mset F. mset (merge_row S l))"
  by (induction F) (simp_all add: merge_left_def)

lemma mset_merged_cong:
  assumes "mset F = mset F'" and "rel_option (\<lambda>S S'. mset S = mset S') oh oh'"
  shows "mset (merged F oh) = mset (merged F' oh')"
proof (cases oh)
  case None
  then have "oh' = None" using assms(2) by (cases oh') auto
  have "mset (map (\<lambda>l. with_On_Hand l (Num (Fin 0))) F) =
        mset (map (\<lambda>l. with_On_Hand l (Num (Fin 0))) F')"
    using assms(1) by (metis mset_map)
  then show ?thesis using None \<open>oh' = None\<close> by (simp add: merged_def)
next
  case (Some S)
  then obtain S' where S': "oh' = Some S'" "mset S = mset S'"
    using assms(2) by (cases oh') auto
  have "(\<Sum>l\<in>#mset F. mset (merge_row S l)) = (\<Sum>l\<in>#mset F'. mset (merge_row S' l))"
    using assms(1) mset_merge_row_cong [OF S'(2)] by simp
  then show ?thesis using Some S'(1) by (simp add: merged_def mset_merge_left)
qed

lemma mset_reconciled_cong:
  assumes "mset F = mset F'" and "rel_option (\<lambda>S S'. mset S = mset S') oh oh'"
  shows "mset (reconciled rnd F oh q) = mset (reconciled rnd F' oh' q)"
  using mset_merged_cong [OF assms] by (metis reconciled_map mset_map)

lemma Component_display: "map Component (display df) = sort (map Component df)"
proof (rule properties_for_sort [symmetric])
  show "mset (map Component (display df)) = mset (map Component df)"
    by (simp add: display_def)
  show "sorted (map Component (display df))"
    by (simp add: display_def)
qed

lemma sort_mset_cong: "mset xs = mset ys \<Longrightarrow> sort xs = sort ys"
  by (metis sorted_list_of_multiset_mset)

text \<open>
  C9, as the code has it. The returned table is sorted by Component, ascending in the
  order of Python strings (by code point, so upper case before lower case), and has the
  rows of \<^verbatim>\<open>df\<close>; the sequence of its Components, and its rows as a multiset, are the
  same for every order of the rows of the formula table and of the stock table.
\<close>

theorem display_order:
  "sorted (map Component (display df)) \<and>
   mset (display df) = mset df \<and>
   (mset F = mset F' \<and> rel_option (\<lambda>S S'. mset S = mset S') oh oh' \<longrightarrow>
      map Component (display (reconciled rnd F oh q)) =
        map Component (display (reconciled rnd F' oh' q)) \<and>
      mset (display (reconciled rnd F oh q)) = mset (display (reconciled rnd F' oh' q)))"
proof (intro conjI impI)
  show "sorted (map Component (display df))"
    by (simp add: display_def)
  show "mset (display df) = mset df"
    by (simp add: display_def)
next
  assume a: "mset F = mset F' \<and> rel_option (\<lambda>S S'. mset S = mset S') oh oh'"
  then have m: "mset (reconciled rnd F oh q) = mset (reconciled rnd F' oh' q)"
    using mset_reconciled_cong by blast
  then have "mset (map Component (reconciled rnd F oh q)) =
             mset (map Component (reconciled rnd F' oh' q))"
    by (metis mset_map)
  then have "sort (map Component (reconciled rnd F oh q)) =
             sort (map Component (reconciled rnd F' oh' q))"
    by (rule sort_mset_cong)
  then show "map Component (display (reconciled rnd F oh q)) =
        map Component (display (reconciled rnd F' oh' q))"
    by (simp only: Component_display)
  show "mset (display (reconciled rnd F oh q)) = mset (display (reconciled rnd F' oh' q))"
    using m by (simp add: display_def)
qed

theorem display_order_witness:
  "mset bottle_cap = mset (rev bottle_cap) \<and>
   rel_option (\<lambda>S S'. mset S = mset S')
     (Some [(''Bottle'', Num (Fin 10)), (''Cap'', Num (Fin 5))])
     (Some [(''Cap'', Num (Fin 5)), (''Bottle'', Num (Fin 10))]) \<and>
   map Component (display (reconciled exact (rev bottle_cap)
     (Some [(''Cap'', Num (Fin 5)), (''Bottle'', Num (Fin 10))]) (Fin 4))) = [''Bottle'', ''Cap'']"
  using display_order [of "reconciled exact bottle_cap
        (Some [(''Bottle'', Num (Fin 10)), (''Cap'', Num (Fin 5))]) (Fin 4)"
      bottle_cap "rev bottle_cap"
      "Some [(''Bottle'', Num (Fin 10)), (''Cap'', Num (Fin 5))]"
      "Some [(''Cap'', Num (Fin 5)), (''Bottle'', Num (Fin 10))]" exact "Fin 4"]
  by (simp add: example_defs stage_defs display_def Let_def)

text \<open>
  C9 as stated fails: the Components \<open>a\<close> and \<open>B\<close> come out as \<open>B\<close>, \<open>a\<close>, which
  is not ascending once case is ignored.
\<close>

theorem display_order_counterexample:
  "map Component (display (reconciled exact
      [formula_entry ''a'' (Num (Fin 1)) ''ea'', formula_entry ''B'' (Num (Fin 1)) ''ea''] None (Fin 1))) =
     [''B'', ''a''] \<and>
   \<not> sorted (map lower [''B'', ''a''])"
proof
  show "map Component (display (reconciled exact
      [formula_entry ''a'' (Num (Fin 1)) ''ea'', formula_entry ''B'' (Num (Fin 1)) ''ea''] None (Fin 1))) =
     [''B'', ''a'']"
    by (simp add: example_defs stage_defs display_def Let_def)
  show "\<not> sorted (map lower [''B'', ''a''])"
    by code_simp
qed


section \<open>Feasibility\<close>

lemmas feasibility_defs =
  max_sellable_def is_candidate_def series_min_def max_cases_by_item_def fl_min2_def
  ratio_def Let_def

lemma fl_less_trans: "fl_less a b \<Longrightarrow> fl_less b c \<Longrightarrow> fl_less a c"
  by (cases a; cases b; cases c) auto

lemma fl_less_asym: "fl_less a b \<Longrightarrow> \<not> fl_less b a"
  by (cases a; cases b) auto

lemma fl_less_total: "a \<noteq> NaN \<Longrightarrow> b \<noteq> NaN \<Longrightarrow> fl_less a b \<or> a = b \<or> fl_less b a"
  by (cases a; cases b) auto

lemma fl_not_less_trans:
  "b \<noteq> NaN \<Longrightarrow> \<not> fl_less b a \<Longrightarrow> \<not> fl_less c b \<Longrightarrow> \<not> fl_less c a"
  by (cases a; cases b; cases c) auto

lemma fl_min2_cases: "fl_min2 a b = a \<or> fl_min2 a b = b"
  by (simp add: fl_min2_def)

lemma fl_min2_lower:
  "a \<noteq> NaN \<Longrightarrow> b \<noteq> NaN \<Longrightarrow> \<not> fl_less a (fl_min2 a b) \<and> \<not> fl_less b (fl_min2 a b)"
  by (cases a; cases b) (auto simp: fl_min2_def)

lemma fl_min2_not_NaN: "a \<noteq> NaN \<Longrightarrow> b \<noteq> NaN \<Longrightarrow> fl_min2 a b \<noteq> NaN"
  by (simp add: fl_min2_def)

lemma fold_fl_min2:
  "y \<noteq> NaN \<Longrightarrow> \<forall>x\<in>set ys. x \<noteq> NaN \<Longrightarrow>
     fold fl_min2 ys y \<in> set (y # ys) \<and> (\<forall>x\<in>set (y # ys). \<not> fl_less x (fold fl_min2 ys y))"
proof (induction ys arbitrary: y)
  case Nil
  then show ?case by (cases y) auto
next
  case (Cons a ys)
  let ?y = "fl_min2 a y"
  let ?v = "fold fl_min2 ys ?y"
  have a: "a \<noteq> NaN" and rest: "\<forall>x\<in>set ys. x \<noteq> NaN" using Cons.prems(2) by auto
  have y': "?y \<noteq> NaN" using a Cons.prems(1) by (rule fl_min2_not_NaN)
  from Cons.IH [OF y' rest]
  have mem: "?v \<in> set (?y # ys)" and low: "\<forall>x\<in>set (?y # ys). \<not> fl_less x ?v" by auto
  have lowy: "\<not> fl_less ?y ?v" using low by simp
  have ly: "\<not> fl_less a ?y" "\<not> fl_less y ?y"
    using fl_min2_lower [OF a Cons.prems(1)] by auto
  have "\<not> fl_less a ?v" using fl_not_less_trans [OF y' lowy ly(1)] .
  moreover have "\<not> fl_less y ?v" using fl_not_less_trans [OF y' lowy ly(2)] .
  moreover have "?v \<in> set (y # a # ys)"
    using mem fl_min2_cases [of a y] by auto
  ultimately show ?case using low by simp
qed

lemma series_min_Fin_iff:
  "series_min xs = Fin q \<longleftrightarrow> Fin q \<in> set xs \<and> (\<forall>x\<in>set xs. \<not> fl_less x (Fin q))"
proof (cases "filter (\<lambda>x. x \<noteq> NaN) xs")
  case Nil
  then have "\<forall>x\<in>set xs. x = NaN" by (auto simp: filter_empty_conv)
  then have "Fin q \<notin> set xs" by auto
  then show ?thesis using Nil by (simp add: series_min_def)
next
  case (Cons y ys)
  let ?v = "fold fl_min2 ys y"
  have sm: "series_min xs = ?v" using Cons by (simp add: series_min_def)
  have set_eq: "set (y # ys) = {x \<in> set xs. x \<noteq> NaN}"
    using Cons by (metis set_filter)
  then have nn: "y \<noteq> NaN" "\<forall>x\<in>set ys. x \<noteq> NaN" by auto
  from fold_fl_min2 [OF nn]
  have mem: "?v \<in> set (y # ys)" and low: "\<forall>x\<in>set (y # ys). \<not> fl_less x ?v" by auto
  show ?thesis
  proof
    assume "series_min xs = Fin q"
    then have v: "?v = Fin q" using sm by simp
    have "Fin q \<in> set xs" using mem v set_eq by auto
    moreover have "\<not> fl_less x (Fin q)" if "x \<in> set xs" for x
    proof (cases "x = NaN")
      case True
      then show ?thesis by simp
    next
      case False
      then have "x \<in> set (y # ys)" using that set_eq by auto
      then show ?thesis using low v by auto
    qed
    ultimately show "Fin q \<in> set xs \<and> (\<forall>x\<in>set xs. \<not> fl_less x (Fin q))" by blast
  next
    assume r: "Fin q \<in> set xs \<and> (\<forall>x\<in>set xs. \<not> fl_less x (Fin q))"
    then have "Fin q \<in> set (y # ys)" using set_eq by auto
    then have 1: "\<not> fl_less (Fin q) ?v" using low by blast
    have "?v \<in> set xs" "?v \<noteq> NaN" using mem set_eq by auto
    then have 2: "\<not> fl_less ?v (Fin q)" using r by blast
    have "?v = Fin q" using fl_less_total [OF \<open>?v \<noteq> NaN\<close>, of "Fin q"] 1 2 by auto
    then show "series_min xs = Fin q" using sm by simp
  qed
qed

lemma math_floor_Inr_iff: "math_floor x = Inr m \<longleftrightarrow> (\<exists>q. x = Fin q \<and> m = \<lfloor>q\<rfloor>)"
  by (cases x) auto

lemma max_cases_by_item_cases:
  "max_cases_by_item rnd r = (if is_candidate r then ratio rnd r else PInf)"
  by (simp add: max_cases_by_item_def is_candidate_def ratio_def)

lemma column_min_Fin_iff:
  "series_min (map (max_cases_by_item rnd) df) = Fin q \<longleftrightarrow>
   series_min (map (ratio rnd) (filter is_candidate df)) = Fin q"
proof -
  have item: "max_cases_by_item rnd r = Fin q \<longleftrightarrow> is_candidate r \<and> ratio rnd r = Fin q" for r
    by (simp add: max_cases_by_item_cases)
  have less: "fl_less (max_cases_by_item rnd r) (Fin q) \<longleftrightarrow>
      is_candidate r \<and> fl_less (ratio rnd r) (Fin q)" for r
    by (simp add: max_cases_by_item_cases)
  have A: "Fin q \<in> set (map (max_cases_by_item rnd) df) \<longleftrightarrow>
      Fin q \<in> set (map (ratio rnd) (filter is_candidate df))"
  proof -
    have "Fin q \<in> set (map (max_cases_by_item rnd) df) \<longleftrightarrow>
        (\<exists>r\<in>set df. max_cases_by_item rnd r = Fin q)"
      by (simp add: image_iff eq_commute)
    also have "\<dots> \<longleftrightarrow> (\<exists>r\<in>set df. is_candidate r \<and> ratio rnd r = Fin q)"
      by (simp only: item)
    also have "\<dots> \<longleftrightarrow> Fin q \<in> set (map (ratio rnd) (filter is_candidate df))"
      by (simp add: image_iff eq_commute Bex_def conj_ac)
    finally show ?thesis .
  qed
  have B: "(\<forall>x\<in>set (map (max_cases_by_item rnd) df). \<not> fl_less x (Fin q)) \<longleftrightarrow>
      (\<forall>x\<in>set (map (ratio rnd) (filter is_candidate df)). \<not> fl_less x (Fin q))"
  proof -
    have "(\<forall>x\<in>set (map (max_cases_by_item rnd) df). \<not> fl_less x (Fin q)) \<longleftrightarrow>
        (\<forall>r\<in>set df. \<not> fl_less (max_cases_by_item rnd r) (Fin q))"
      by simp
    also have "\<dots> \<longleftrightarrow> (\<forall>r\<in>set df. \<not> (is_candidate r \<and> fl_less (ratio rnd r) (Fin q)))"
      by (simp only: less)
    also have "\<dots> \<longleftrightarrow>
        (\<forall>x\<in>set (map (ratio rnd) (filter is_candidate df)). \<not> fl_less x (Fin q))"
      by auto
    finally show ?thesis .
  qed
  show ?thesis
    by (simp only: series_min_Fin_iff A B)
qed

lemma max_sellable_Inr_iff:
  "max_sellable rnd df = Inr m \<longleftrightarrow>
     (if filter is_candidate df = [] then m = 0
      else \<exists>q. series_min (map (ratio rnd) (filter is_candidate df)) = Fin q \<and> m = \<lfloor>q\<rfloor>)"
  by (auto simp: max_sellable_def Let_def math_floor_Inr_iff column_min_Fin_iff)

lemma candidate_not_zero: "is_candidate r \<Longrightarrow> Per_Case r \<noteq> Fin 0"
  by (auto simp: is_candidate_def)

lemma filter_candidates_nonzero:
  "filter is_candidate (filter (\<lambda>r. Per_Case r \<noteq> Fin 0) df) = filter is_candidate df"
  by (auto simp: filter_filter intro: filter_cong dest: candidate_not_zero)

text \<open>
  C4. When no row has a positive Per_Case the result is 0. A row whose Per_Case is 0
  never changes the number that is returned, whatever its On_Hand: the computation
  returns \<open>m\<close> on a table exactly when it returns \<open>m\<close> on the table without its rows
  of Per_Case 0, and exactly when it does so with one more such row put anywhere.
\<close>

theorem zero_Per_Case_never_constrains:
  "((\<forall>r\<in>set df. \<not> fl_less (Fin 0) (Per_Case r)) \<longrightarrow> max_sellable rnd df = Inr 0) \<and>
   (max_sellable rnd df = Inr m \<longleftrightarrow>
      max_sellable rnd (filter (\<lambda>r. Per_Case r \<noteq> Fin 0) df) = Inr m) \<and>
   (Per_Case z = Fin 0 \<longrightarrow>
      (max_sellable rnd (xs @ z # ys) = Inr m \<longleftrightarrow> max_sellable rnd (xs @ ys) = Inr m))"
proof (intro conjI impI)
  assume "\<forall>r\<in>set df. \<not> fl_less (Fin 0) (Per_Case r)"
  then have "filter is_candidate df = []"
    by (auto simp: filter_empty_conv is_candidate_def)
  then show "max_sellable rnd df = Inr 0"
    by (simp add: max_sellable_def)
next
  show "max_sellable rnd df = Inr m \<longleftrightarrow>
      max_sellable rnd (filter (\<lambda>r. Per_Case r \<noteq> Fin 0) df) = Inr m"
    by (simp only: max_sellable_Inr_iff filter_candidates_nonzero)
next
  assume "Per_Case z = Fin 0"
  then have "\<not> is_candidate z" by (simp add: is_candidate_def)
  then have "filter is_candidate (xs @ z # ys) = filter is_candidate (xs @ ys)" by simp
  then show "max_sellable rnd (xs @ z # ys) = Inr m \<longleftrightarrow> max_sellable rnd (xs @ ys) = Inr m"
    by (simp only: max_sellable_Inr_iff)
qed

theorem zero_Per_Case_never_constrains_witness:
  "\<not> fl_less (Fin 0) (Per_Case (result_entry ''Label'' 0 0 0 0)) \<and>
   max_sellable exact [result_entry ''Label'' 0 0 0 0] = Inr 0 \<and>
   Per_Case (result_entry ''Label'' 0 0 0 0) = Fin 0 \<and>
   max_sellable exact [result_entry ''Cap'' 5 1 4 1] = Inr 5 \<and>
   max_sellable exact [result_entry ''Label'' 0 0 0 0, result_entry ''Cap'' 5 1 4 1] = Inr 5"
  using
    zero_Per_Case_never_constrains [of "[result_entry ''Label'' 0 0 0 0]" exact 0
      "result_entry ''Label'' 0 0 0 0" "[]" "[result_entry ''Cap'' 5 1 4 1]"]
    zero_Per_Case_never_constrains [of "[result_entry ''Label'' 0 0 0 0]" exact 5
      "result_entry ''Label'' 0 0 0 0" "[]" "[result_entry ''Cap'' 5 1 4 1]"]
  by (simp add: example_defs feasibility_defs)

text \<open>
  C5, as the code has it. The feasibility computation returns one integer and nothing
  else: 0 when no row has a positive Per_Case; otherwise the floor of the least ratio
  On_Hand / Per_Case among the rows with a positive Per_Case (NaN ratios are skipped),
  and it returns exactly when that least ratio is finite.
\<close>

theorem max_sellable_value:
  "max_sellable rnd df = Inr m \<longleftrightarrow>
     (if filter is_candidate df = [] then m = 0
      else \<exists>c\<in>set (filter is_candidate df). \<exists>q.
             ratio rnd c = Fin q \<and> m = \<lfloor>q\<rfloor> \<and>
             (\<forall>c'\<in>set (filter is_candidate df). \<not> fl_less (ratio rnd c') (Fin q)))"
proof -
  let ?C = "filter is_candidate df"
  have "(\<exists>q. series_min (map (ratio rnd) ?C) = Fin q \<and> m = \<lfloor>q\<rfloor>) \<longleftrightarrow>
      (\<exists>c\<in>set ?C. \<exists>q. ratio rnd c = Fin q \<and> m = \<lfloor>q\<rfloor> \<and>
          (\<forall>c'\<in>set ?C. \<not> fl_less (ratio rnd c') (Fin q)))"
    (is "?L \<longleftrightarrow> ?R")
  proof
    assume ?L
    then obtain q where q: "Fin q \<in> set (map (ratio rnd) ?C)"
        "\<forall>x\<in>set (map (ratio rnd) ?C). \<not> fl_less x (Fin q)" "m = \<lfloor>q\<rfloor>"
      unfolding series_min_Fin_iff by blast
    from q(1) obtain c where c: "c \<in> set ?C" "ratio rnd c = Fin q"
      by (auto simp: image_iff)
    have "\<forall>c'\<in>set ?C. \<not> fl_less (ratio rnd c') (Fin q)"
      using q(2) by simp
    then show ?R using c q(3) by blast
  next
    assume ?R
    then obtain c q where c: "c \<in> set ?C" "ratio rnd c = Fin q" "m = \<lfloor>q\<rfloor>"
        "\<forall>c'\<in>set ?C. \<not> fl_less (ratio rnd c') (Fin q)"
      by blast
    have "Fin q \<in> set (map (ratio rnd) ?C)"
      using c(1,2) by (metis image_eqI set_map)
    moreover have "\<forall>x\<in>set (map (ratio rnd) ?C). \<not> fl_less x (Fin q)"
      using c(4) by simp
    ultimately have "series_min (map (ratio rnd) ?C) = Fin q"
      unfolding series_min_Fin_iff by blast
    then show ?L using c(3) by blast
  qed
  then show ?thesis
    by (simp only: max_sellable_Inr_iff)
qed


theorem max_sellable_value_witness:
  "filter is_candidate [result_entry ''Bottle'' 10 1 4 6, result_entry ''Cap'' 5 1 4 1] \<noteq> [] \<and>
   ratio exact (result_entry ''Cap'' 5 1 4 1) = Fin 5 \<and>
   max_sellable exact [result_entry ''Bottle'' 10 1 4 6, result_entry ''Cap'' 5 1 4 1] = Inr 5"
  using max_sellable_value [of exact "[result_entry ''Bottle'' 10 1 4 6, result_entry ''Cap'' 5 1 4 1]" 5]
  by (simp add: example_defs feasibility_defs)

text \<open>
  C5 as stated fails: no constraining material is returned. The call returns the
  table, the integer and the shortages; and the integer is the same 5 for two tables
  whose constraining materials, as the specification defines them, are Cap and Bottle.
\<close>

theorem constraining_material_counterexample:
  "compute_results exact bottle_cap (Some [(''Bottle'', Num (Fin 10)), (''Cap'', Num (Fin 5))]) (Fin 4) =
     Inr ([result_entry ''Bottle'' 10 1 4 6, result_entry ''Cap'' 5 1 4 1], 5, []) \<and>
   max_sellable exact [result_entry ''Bottle'' 10 1 4 6, result_entry ''Cap'' 5 1 4 1] = Inr 5 \<and>
   max_sellable exact [result_entry ''Bottle'' 5 1 4 1, result_entry ''Cap'' 10 1 4 6] = Inr 5 \<and>
   constrainingMaterial_spec exact [result_entry ''Bottle'' 10 1 4 6, result_entry ''Cap'' 5 1 4 1] =
     Some ''Cap'' \<and>
   constrainingMaterial_spec exact [result_entry ''Bottle'' 5 1 4 1, result_entry ''Cap'' 10 1 4 6] =
     Some ''Bottle''"
  by (simp add: example_defs stage_defs feasibility_defs compute_results_def display_def
      shortages_def constrainingMaterial_spec_def more_constraining_spec_def)

section \<open>The call as a whole\<close>

text \<open>
  The call returns exactly when \<^verbatim>\<open>math.floor\<close> does, and then with the sorted frame,
  the integer and the shortages of the frame of line 62; the theorems on the stages
  are therefore theorems on what the call returns.
\<close>

lemma compute_results_Inr_iff:
  "compute_results rnd F oh q = Inr (d, m, s) \<longleftrightarrow>
     max_sellable rnd (reconciled rnd F oh q) = Inr m \<and>
     d = display (reconciled rnd F oh q) \<and>
     s = shortages (reconciled rnd F oh q)"
  by (auto simp: compute_results_def Let_def split: sum.splits)

lemma compute_results_Inl_iff:
  "compute_results rnd F oh q = Inl e \<longleftrightarrow> max_sellable rnd (reconciled rnd F oh q) = Inl e"
  by (auto simp: compute_results_def Let_def split: sum.splits)

section \<open>The arguments after the call\<close>

lemma keeps_return: "Q x \<Longrightarrow> keeps n (return x) Q"
  by (simp add: keeps_def return_def)

lemma keeps_raise: "keeps n (raise e) Q"
  by (simp add: keeps_def raise_def)

lemma keeps_bind:
  assumes m: "keeps n m P" and f: "\<And>x. P x \<Longrightarrow> keeps n (f x) Q"
  shows "keeps n (bind m f) Q"
  unfolding keeps_def
proof (intro allI impI)
  fix h :: heap assume n: "n \<le> length h"
  obtain r h1 where mh: "m h = (r, h1)" by (cases "m h")
  have 1: "n \<le> length h1" "take n h1 = take n h" "case r of Inl _ \<Rightarrow> True | Inr x \<Rightarrow> P x"
    using m n mh by (auto simp: keeps_def)
  show "case bind m f h of (r, h') \<Rightarrow>
          n \<le> length h' \<and> take n h' = take n h \<and> (case r of Inl _ \<Rightarrow> True | Inr x \<Rightarrow> Q x)"
  proof (cases r)
    case (Inl e)
    then show ?thesis using mh 1 by (simp add: bind_def)
  next
    case (Inr x)
    then have "P x" using 1(3) by simp
    then have "keeps n (f x) Q" by (rule f)
    then have "case f x h1 of (r, h') \<Rightarrow>
          n \<le> length h' \<and> take n h' = take n h1 \<and> (case r of Inl _ \<Rightarrow> True | Inr x \<Rightarrow> Q x)"
      using 1(1) by (simp add: keeps_def)
    then show ?thesis using mh Inr 1(2) by (auto simp: bind_def)
  qed
qed

lemma keeps_lookup: "keeps n (lookup a) (\<lambda>_. True)"
  by (simp add: keeps_def lookup_def)

lemma keeps_alloc: "keeps n (alloc f) (\<lambda>a. n \<le> a)"
  by (simp add: keeps_def alloc_def)

lemma keeps_assign: "n \<le> a \<Longrightarrow> keeps n (assign a f) (\<lambda>_. True)"
  by (simp add: keeps_def assign_def)

lemma keeps_weaken: "keeps n p Q \<Longrightarrow> (\<And>x. Q x \<Longrightarrow> Q' x) \<Longrightarrow> keeps n p Q'"
  by (fastforce simp: keeps_def split: sum.splits prod.splits)

lemma keeps_copy_frame: "keeps n (copy_frame a) (\<lambda>df. n \<le> df)"
  unfolding copy_frame_def
  by (rule keeps_bind [OF keeps_lookup]) (simp add: keeps_raise keeps_alloc split: option.split)

lemma keeps_merge_frames: "keeps n (merge_frames l r) (\<lambda>df. n \<le> df)"
  unfolding merge_frames_def
  by (intro keeps_bind [OF keeps_lookup])
     (simp add: keeps_raise keeps_alloc split: option.split frame.split)

lemma keeps_default_On_Hand: "n \<le> df \<Longrightarrow> keeps n (default_On_Hand df) (\<lambda>_. True)"
  unfolding default_On_Hand_def
  by (intro keeps_bind [OF keeps_lookup])
     (simp add: keeps_raise keeps_return keeps_assign split: option.split frame.split)

lemma keeps_normalize_in_place: "n \<le> df \<Longrightarrow> keeps n (normalize_in_place df) (\<lambda>_. True)"
  unfolding normalize_in_place_def
  by (intro keeps_bind [OF keeps_lookup])
     (simp add: keeps_raise keeps_assign split: option.split frame.split)

lemma keeps_derive_in_place: "n \<le> df \<Longrightarrow> keeps n (derive_in_place rnd q df) (\<lambda>_. True)"
  unfolding derive_in_place_def
  by (intro keeps_bind [OF keeps_lookup])
     (simp add: keeps_raise keeps_assign split: option.split frame.split)

lemma keeps_floor:
  "keeps n (case math_floor x of Inl e \<Rightarrow> raise e | Inr m \<Rightarrow> return m) (\<lambda>_. True)"
  by (simp add: keeps_raise keeps_return split: sum.split)

lemma keeps_max_sellable_in_place:
  "n \<le> df \<Longrightarrow> keeps n (max_sellable_in_place rnd df) (\<lambda>_. True)"
  unfolding max_sellable_in_place_def
  by (intro keeps_bind [OF keeps_lookup])
     (auto simp: keeps_raise keeps_return keeps_floor split: option.split frame.split
       intro!: keeps_bind [OF keeps_assign])

lemma keeps_select_results: "keeps n (select_results df) (\<lambda>_. True)"
  unfolding select_results_def
  by (intro keeps_bind [OF keeps_lookup])
     (simp add: keeps_raise keeps_return split: option.split frame.split)

lemma keeps_compute_results_store:
  "keeps n (compute_results_store rnd components onhand_df cases_sold) (\<lambda>_. True)"
  unfolding compute_results_store_def
proof (rule keeps_bind [OF keeps_copy_frame])
  fix df0 :: addr assume df0: "n \<le> df0"
  have first: "keeps n (case onhand_df of Some oh \<Rightarrow> merge_frames df0 oh | None \<Rightarrow> return df0)
      (\<lambda>df. n \<le> df)"
    using df0 by (simp add: keeps_merge_frames keeps_return split: option.split)
  show "keeps n
     (bind (case onhand_df of Some oh \<Rightarrow> merge_frames df0 oh | None \<Rightarrow> return df0) (\<lambda>df.
      bind (default_On_Hand df) (\<lambda>_.
      bind (normalize_in_place df) (\<lambda>_.
      bind (derive_in_place rnd cases_sold df) (\<lambda>_.
      bind (max_sellable_in_place rnd df) (\<lambda>max_sellable.
      bind (select_results df) (\<lambda>(display_df, shortages_df).
      return (display_df, max_sellable, shortages_df))))))))
     (\<lambda>_. True)"
  proof (rule keeps_bind [OF first])
    fix df :: addr assume df: "n \<le> df"
    show "keeps n
      (bind (default_On_Hand df) (\<lambda>_.
       bind (normalize_in_place df) (\<lambda>_.
       bind (derive_in_place rnd cases_sold df) (\<lambda>_.
       bind (max_sellable_in_place rnd df) (\<lambda>max_sellable.
       bind (select_results df) (\<lambda>(display_df, shortages_df).
       return (display_df, max_sellable, shortages_df)))))))
      (\<lambda>_. True)"
      by (intro keeps_bind [OF keeps_default_On_Hand [OF df]]
            keeps_bind [OF keeps_normalize_in_place [OF df]]
            keeps_bind [OF keeps_derive_in_place [OF df]]
            keeps_bind [OF keeps_max_sellable_in_place [OF df]]
            keeps_bind [OF keeps_select_results])
         (simp add: keeps_return split: prod.split)
  qed
qed

lemma take_all_nth: "n \<le> length h' \<Longrightarrow> take n h' = take n h \<Longrightarrow> a < n \<Longrightarrow> h' ! a = h ! a"
  by (metis nth_take)


lemmas store_defs =
  compute_results_store_def bind_def return_def raise_def lookup_def alloc_def assign_def
  copy_frame_def merge_frames_def default_On_Hand_def normalize_in_place_def
  derive_in_place_def max_sellable_in_place_def select_results_def

lemma store_value_None:
  assumes "c < length h" "h ! c = Formula_Frame F"
  shows "fst (compute_results_store rnd c None q h) = compute_results rnd F None q"
  using assms
  by (simp add: store_defs compute_results_def reconciled_def merged_def max_sellable_def
      Let_def nth_append split: sum.split)

lemma store_value_Some:
  assumes "c < length h" "h ! c = Formula_Frame F" "a < length h" "h ! a = Stock_Frame S"
  shows "fst (compute_results_store rnd c (Some a) q h) = compute_results rnd F (Some S) q"
  using assms
  by (simp add: store_defs compute_results_def reconciled_def merged_def max_sellable_def
      Let_def nth_append split: sum.split)

lemma store_value:
  "argument_frames h c onhand_df F oh \<Longrightarrow>
     fst (compute_results_store rnd c onhand_df q h) = compute_results rnd F oh q"
  by (cases onhand_df; cases oh)
     (simp_all add: argument_frames_def store_value_None store_value_Some)

text \<open>
  C10. A call of \<^verbatim>\<open>compute_results\<close> changes no object that existed before it, whether
  it returns or raises: it only adds objects to the store, so the frames that
  \<^verbatim>\<open>components\<close> and \<^verbatim>\<open>onhand_df\<close> refer to are the same before and after. The value
  it gives is the one computed from the contents of its arguments, and a second call
  with the same arguments gives the same value.
\<close>

theorem compute_results_leaves_arguments:
  "compute_results_store rnd components onhand_df cases_sold h = (res, h') \<Longrightarrow>
     length h \<le> length h' \<and> (\<forall>a<length h. h' ! a = h ! a) \<and>
     (argument_frames h components onhand_df F oh \<longrightarrow>
        res = compute_results rnd F oh cases_sold \<and>
        argument_frames h' components onhand_df F oh \<and>
        fst (compute_results_store rnd components onhand_df cases_sold h') = res)"
proof -
  assume run: "compute_results_store rnd components onhand_df cases_sold h = (res, h')"
  have "keeps (length h) (compute_results_store rnd components onhand_df cases_sold) (\<lambda>_. True)"
    by (rule keeps_compute_results_store)
  then have len: "length h \<le> length h'" and tk: "take (length h) h' = take (length h) h"
    using run by (auto simp: keeps_def)
  have same: "h' ! a = h ! a" if "a < length h" for a
    using take_all_nth [OF len tk that] .
  have rest: "res = compute_results rnd F oh cases_sold \<and>
        argument_frames h' components onhand_df F oh \<and>
        fst (compute_results_store rnd components onhand_df cases_sold h') = res"
    if af: "argument_frames h components onhand_df F oh"
  proof -
    have 1: "res = compute_results rnd F oh cases_sold"
      using store_value [OF af, of rnd cases_sold] run by simp
    have 2: "argument_frames h' components onhand_df F oh"
      using af len same
      by (cases onhand_df; cases oh) (auto simp: argument_frames_def)
    show ?thesis using 1 2 store_value [OF 2, of rnd cases_sold] by simp
  qed
  show ?thesis using len same rest by blast
qed

theorem compute_results_leaves_arguments_witness:
  "argument_frames
     [Formula_Frame bottle_cap, Stock_Frame [(''Bottle'', Num (Fin 2))]] 0 (Some 1)
     bottle_cap (Some [(''Bottle'', Num (Fin 2))]) \<and>
   take 2 (snd (compute_results_store exact 0 (Some 1) (Fin 3)
     [Formula_Frame bottle_cap, Stock_Frame [(''Bottle'', Num (Fin 2))]])) =
     [Formula_Frame bottle_cap, Stock_Frame [(''Bottle'', Num (Fin 2))]] \<and>
   fst (compute_results_store exact 0 (Some 1) (Fin 3)
     [Formula_Frame bottle_cap, Stock_Frame [(''Bottle'', Num (Fin 2))]]) =
     Inr ([result_entry ''Bottle'' 2 1 3 (- 1), result_entry ''Cap'' 0 1 3 (- 3)], 0,
          [result_entry ''Bottle'' 2 1 3 (- 1), result_entry ''Cap'' 0 1 3 (- 3)])"
  using compute_results_leaves_arguments [of exact 0 "Some 1" "Fin 3"
      "[Formula_Frame bottle_cap, Stock_Frame [(''Bottle'', Num (Fin 2))]]"
      "fst (compute_results_store exact 0 (Some 1) (Fin 3)
         [Formula_Frame bottle_cap, Stock_Frame [(''Bottle'', Num (Fin 2))]])"
      "snd (compute_results_store exact 0 (Some 1) (Fin 3)
         [Formula_Frame bottle_cap, Stock_Frame [(''Bottle'', Num (Fin 2))]])"
      bottle_cap "Some [(''Bottle'', Num (Fin 2))]"]
  by (simp add: argument_frames_def store_defs example_defs stage_defs feasibility_defs
      display_def shortages_def)

end
